theory Spec2Isabelle
  imports Main
begin

section \<open>Scenario table and target configuration\<close>

text \<open>
  The injector (\<^verbatim>\<open>aiops-web-inject/app.py\<close>) keeps a static table \<^verbatim>\<open>SCENARIOS\<close> of
  scenario definitions, each a dictionary. The table is an association list here, so
  that \<^verbatim>\<open>SCENARIOS.keys()\<close> keeps the order of the source; a definition is a map from
  field name to text. The fields \<^verbatim>\<open>name\<close> and \<^verbatim>\<open>description\<close> hold display text outside
  ASCII that no function modelled below reads; they are left out.
\<close>

type_synonym scenario = "string \<rightharpoonup> string"

definition SCENARIOS :: "(string \<times> scenario) list" where
  "SCENARIOS =
     [(''s3_access'', [''alarm'' \<mapsto> ''PostItems-5XX'', ''request_type'' \<mapsto> ''post_items'']),
      (''latency'', [''alarm'' \<mapsto> ''GetAllItems-Latency'', ''request_type'' \<mapsto> ''get_items'']),
      (''wrong_ids'', [''alarm'' \<mapsto> ''GetItemById-4XX'', ''request_type'' \<mapsto> ''get_by_id'']),
      (''lambda_throttle'', [''alarm'' \<mapsto> ''PostItems-4XX'', ''request_type'' \<mapsto> ''post_items'']),
      (''dynamodb_throttle'', [''alarm'' \<mapsto> ''PostItems-5XX'', ''request_type'' \<mapsto> ''post_items''])]"

text \<open>
  The configuration is the dictionary that \<^verbatim>\<open>json.load\<close> returns. A value stands for
  the text that the f-string interpolation of the entry yields.
\<close>

type_synonym config = "string \<rightharpoonup> string"

text \<open>
  Every exception the modelled code can meet is a subclass of Python's \<^verbatim>\<open>Exception\<close>:
  a missing dictionary key, a failure of the \<^verbatim>\<open>requests\<close> library (timeout, refused
  connection, malformed URL), and a failure to open or parse \<^verbatim>\<open>config.json\<close>.
\<close>

datatype py_exception = KeyError string | RequestException string | ConfigError string

fun exc_str :: "py_exception \<Rightarrow> string" where
  "exc_str (KeyError k) = [CHR 0x27] @ k @ [CHR 0x27]"
| "exc_str (RequestException m) = m"
| "exc_str (ConfigError m) = m"

text \<open>What \<^verbatim>\<open>load_config\<close> finds on disk when it runs.\<close>

datatype config_file = Missing | Unreadable string | Parsed config

definition default_config :: config where
  "default_config = [''error_injection_api'' \<mapsto> '''', ''sample_api'' \<mapsto> '''']"

fun load_config :: "config_file \<Rightarrow> py_exception + config" where
  "load_config Missing = Inr default_config"
| "load_config (Unreadable m) = Inl (ConfigError m)"
| "load_config (Parsed c) = Inr c"

section \<open>The single-request sender\<close>

datatype http_method = GET | POST

record http_call =
  verb :: http_method
  url :: string
  json_body :: "(string \<times> string) list option"
  timeout :: nat

text \<open>
  The \<^verbatim>\<open>requests\<close> library either returns a response (of which only the status code is
  ever read) or raises.
\<close>

datatype http_result = Response nat | Raises string

datatype log_line =
    RequestFailed string
  | CycleFailed string string
  | RecoveryCompleted nat "int option" string

record effects =
  calls :: "http_call list"
  printed :: "log_line list"

definition subscript :: "config \<Rightarrow> string \<Rightarrow> py_exception + string" where
  "subscript c k = (case c k of None \<Rightarrow> Inl (KeyError k) | Some v \<Rightarrow> Inr v)"

text \<open>
  The body of the \<^verbatim>\<open>try\<close> in \<^verbatim>\<open>send_single_request\<close>: the call it makes, if the
  lookup of \<^verbatim>\<open>sample_api\<close> gets that far. \<open>now\<close> is the text of \<^verbatim>\<open>time.time()\<close>.
\<close>

definition request_for :: "config \<Rightarrow> string \<Rightarrow> string \<Rightarrow> py_exception + http_call" where
  "request_for config request_type now =
     (case subscript config ''sample_api'' of
        Inl e \<Rightarrow> Inl e
      | Inr base \<Rightarrow>
          if request_type = ''get_items'' then
            Inr \<lparr>verb = GET, url = base @ ''/items'', json_body = None, timeout = 5\<rparr>
          else if request_type = ''get_by_id'' then
            Inr \<lparr>verb = GET, url = base @ ''/items/test-id-1'', json_body = None, timeout = 5\<rparr>
          else
            Inr \<lparr>verb = POST, url = base @ ''/items'',
                 json_body = Some [(''name'', ''Error Trigger''),
                                   (''content'', ''Request at '' @ now)],
                 timeout = 5\<rparr>)"

definition try_send :: "config \<Rightarrow> string \<Rightarrow> string \<Rightarrow> (http_call \<Rightarrow> http_result)
    \<Rightarrow> (py_exception + unit) \<times> http_call list" where
  "try_send config request_type now net =
     (case request_for config request_type now of
        Inl e \<Rightarrow> (Inl e, [])
      | Inr c \<Rightarrow>
          (case net c of
             Raises m \<Rightarrow> (Inl (RequestException m), [c])
           | Response code \<Rightarrow> (Inr (), [c])))"

text \<open>
  \<^verbatim>\<open>send_single_request\<close>: the \<^verbatim>\<open>try\<close> body under its handler
  \<^verbatim>\<open>except Exception as e: print(f"Request failed: {e}")\<close>. The first component is what
  the caller sees: \<open>Inl\<close> would be an exception that escapes.
\<close>

definition send_single_request :: "config \<Rightarrow> string \<Rightarrow> string \<Rightarrow> (http_call \<Rightarrow> http_result)
    \<Rightarrow> (py_exception + unit) \<times> effects" where
  "send_single_request config request_type now net =
     (case try_send config request_type now net of
        (Inl e, cs) \<Rightarrow> (Inr (), \<lparr>calls = cs, printed = [RequestFailed (exc_str e)]\<rparr>)
      | (Inr u, cs) \<Rightarrow> (Inr (), \<lparr>calls = cs, printed = []\<rparr>))"

section \<open>The runner loop\<close>

text \<open>
  The request shape of a scenario key:
  \<^verbatim>\<open>SCENARIOS.get(scenario_type, {}).get('request_type', 'post_items')\<close>. The table is an
  argument, so that definitions other than the five of the source can be asked about;
  the program itself always passes \<open>SCENARIOS\<close>.
\<close>

definition request_type_of :: "(string \<times> scenario) list \<Rightarrow> string \<Rightarrow> string" where
  "request_type_of tbl scenario_type =
     (let scenario = (case map_of tbl scenario_type of None \<Rightarrow> Map.empty | Some d \<Rightarrow> d)
      in case scenario ''request_type'' of None \<Rightarrow> ''post_items'' | Some t \<Rightarrow> t)"

text \<open>
  What one pass through the loop meets in its surroundings: the state of \<^verbatim>\<open>config.json\<close>
  when \<^verbatim>\<open>load_config\<close> reads it, the clock text and the network's answer for each
  request unit, the wall time (in milliseconds) that the requests of the pass take, and
  the moment, counted from the loop-head check of the pass, at which another thread sets
  the runner's \<^verbatim>\<open>threading.Event\<close>, if one does so during the pass.
\<close>

record cycle_env =
  config_file :: config_file
  now :: "nat \<Rightarrow> string"
  net :: "nat \<Rightarrow> http_call \<Rightarrow> http_result"
  work_ms :: nat
  cancel_at :: "nat option"

datatype phase = Running | Stopped

text \<open>
  The state of one runner thread: whether the loop has been left, the flag of the Event
  object it holds, its local \<^verbatim>\<open>request_count\<close>, the wall clock in milliseconds, what
  each completed pass dispatched (one \<open>effects\<close> per call of \<^verbatim>\<open>send_single_request\<close>),
  and the lines the loop itself printed.
\<close>

record runner =
  phase :: phase
  stop_flag :: bool
  request_count :: nat
  clock :: nat
  trace :: "effects list list"
  loop_log :: "log_line list"

text \<open>
  \<^verbatim>\<open>if max_requests and request_count >= max_requests\<close>: \<^verbatim>\<open>None\<close> and \<^verbatim>\<open>0\<close> are
  both false in Python, every other integer is true.
\<close>

definition budget_reached :: "int option \<Rightarrow> nat \<Rightarrow> bool" where
  "budget_reached max_requests count =
     (case max_requests of
        None \<Rightarrow> False
      | Some n \<Rightarrow> n \<noteq> 0 \<and> int count \<ge> n)"

text \<open>
  The head of the loop: the \<^verbatim>\<open>while not stop_event.is_set()\<close> test, then the budget
  test with its \<^verbatim>\<open>break\<close>.
\<close>

definition loop_head :: "string \<Rightarrow> int option \<Rightarrow> runner \<Rightarrow> runner" where
  "loop_head scenario_type max_requests s =
     (if phase s = Stopped then s
      else if stop_flag s then s\<lparr>phase := Stopped\<rparr>
      else if budget_reached max_requests (request_count s) then
        s\<lparr>phase := Stopped,
          loop_log := loop_log s @
            [RecoveryCompleted (request_count s) max_requests scenario_type]\<rparr>
      else s)"

text \<open>
  Lines 98 to 114: the request units of one pass, and either the exception that leaves
  the block or the amount it adds to \<^verbatim>\<open>request_count\<close>. For \<^verbatim>\<open>lambda_throttle\<close> five
  threads each run \<^verbatim>\<open>send_single_request\<close> and are joined; the units are listed in the
  order the threads were started, and an exception inside a thread would end that thread
  only. Thread creation itself is taken to succeed, and the joins to see every unit end.
\<close>

definition dispatch :: "(string \<times> scenario) list \<Rightarrow> string \<Rightarrow> config \<Rightarrow> cycle_env
    \<Rightarrow> effects list \<times> (py_exception + nat)" where
  "dispatch tbl scenario_type config e =
     (let request_type = request_type_of tbl scenario_type in
      if scenario_type = ''lambda_throttle'' then
        (map (\<lambda>i. snd (send_single_request config request_type (now e i) (net e i))) [0..<5],
         Inr 5)
      else
        (case send_single_request config request_type (now e 0) (net e 0) of
           (Inl ex, eff) \<Rightarrow> ([eff], Inl ex)
         | (Inr u, eff) \<Rightarrow> ([eff], Inr 1)))"

text \<open>
  The \<^verbatim>\<open>try\<close> body of the loop (lines 96 to 114): when \<^verbatim>\<open>load_config\<close> raises, no
  unit is dispatched and the count is not raised.
\<close>

definition attempt :: "(string \<times> scenario) list \<Rightarrow> string \<Rightarrow> cycle_env
    \<Rightarrow> effects list \<times> (py_exception + nat)" where
  "attempt tbl scenario_type e =
     (case load_config (config_file e) of
        Inl ex \<Rightarrow> ([], Inl ex)
      | Inr config \<Rightarrow> dispatch tbl scenario_type config e)"

definition cancelled_in :: "cycle_env \<Rightarrow> bool" where
  "cancelled_in e = (case cancel_at e of None \<Rightarrow> False | Some t \<Rightarrow> t \<le> work_ms e + 2000)"

text \<open>
  The body of the loop with its handler and the \<^verbatim>\<open>time.sleep(2)\<close> that ends every
  pass. The sleep is a plain one: it lasts its two seconds whatever happens to the Event.
\<close>

definition loop_body :: "(string \<times> scenario) list \<Rightarrow> string \<Rightarrow> cycle_env \<Rightarrow> runner \<Rightarrow> runner" where
  "loop_body tbl scenario_type e s =
     (let s' = (case attempt tbl scenario_type e of
                  (us, Inl ex) \<Rightarrow>
                    s\<lparr>trace := trace s @ [us],
                      loop_log := loop_log s @ [CycleFailed scenario_type (exc_str ex)]\<rparr>
                | (us, Inr n) \<Rightarrow>
                    s\<lparr>trace := trace s @ [us],
                      request_count := request_count s + n\<rparr>)
      in s'\<lparr>clock := clock s + work_ms e + 2000,
            stop_flag := stop_flag s \<or> cancelled_in e\<rparr>)"

text \<open>
  The loop over the passes the surroundings provide. When they are used up the head is
  tested once more; a result still \<open>Running\<close> is a runner that would go on.
\<close>

fun run_loop :: "(string \<times> scenario) list \<Rightarrow> string \<Rightarrow> int option \<Rightarrow> cycle_env list
    \<Rightarrow> runner \<Rightarrow> runner" where
  "run_loop tbl scenario_type max_requests [] s = loop_head scenario_type max_requests s"
| "run_loop tbl scenario_type max_requests (e # es) s =
     (let s1 = loop_head scenario_type max_requests s in
      if phase s1 = Stopped then s1
      else run_loop tbl scenario_type max_requests es (loop_body tbl scenario_type e s1))"

section \<open>The registry and its threads\<close>

text \<open>
  A runner thread as the registry sees it: the arguments it was created with, the Event
  that \<^verbatim>\<open>stop_events.get\<close> gave it when it was started, its count, whether the thread is
  alive, and how many milliseconds separate it from its next loop-head check (the rest
  of the requests in flight and of the two-second sleep; \<open>0\<close> when it stands at the head).
\<close>

record thread =
  th_key :: string
  th_max :: "int option"
  th_event :: "nat option"
  th_count :: nat
  alive :: bool
  to_head :: nat

text \<open>
  The three global dictionaries of the module, the Event and Thread objects created so
  far (an object is named by its position), and the wall clock in milliseconds.
\<close>

record world =
  request_threads :: "string \<rightharpoonup> nat"
  stop_events :: "string \<rightharpoonup> nat"
  recovery_mode :: "string \<rightharpoonup> bool"
  events :: "bool list"
  threads :: "thread list"
  wall :: nat

definition initial_world :: world where
  "initial_world =
     \<lparr>request_threads = Map.empty, stop_events = Map.empty, recovery_mode = Map.empty,
      events = [], threads = [], wall = 0\<rparr>"

definition is_set :: "world \<Rightarrow> nat \<Rightarrow> bool" where
  "is_set w ev = (ev < length (events w) \<and> events w ! ev)"

definition set_event :: "nat \<Rightarrow> world \<Rightarrow> world" where
  "set_event ev w = w\<lparr>events := (events w)[ev := True]\<rparr>"

definition signalled :: "world \<Rightarrow> thread \<Rightarrow> bool" where
  "signalled w t = (case th_event t of None \<Rightarrow> False | Some ev \<Rightarrow> is_set w ev)"

definition is_alive :: "world \<Rightarrow> nat \<Rightarrow> bool" where
  "is_alive w tid = (tid < length (threads w) \<and> alive (threads w ! tid))"

text \<open>
  Time passing: a live thread whose Event is set leaves its loop, and so ends, when it
  reaches the loop head; the others come nearer to theirs.
\<close>

definition elapse_thread :: "world \<Rightarrow> nat \<Rightarrow> thread \<Rightarrow> thread" where
  "elapse_thread w ms t =
     (if \<not> alive t then t
      else if signalled w t \<and> to_head t \<le> ms then t\<lparr>alive := False, to_head := 0\<rparr>
      else t\<lparr>to_head := to_head t - ms\<rparr>)"

definition elapse :: "nat \<Rightarrow> world \<Rightarrow> world" where
  "elapse ms w = w\<lparr>threads := map (elapse_thread w ms) (threads w), wall := wall w + ms\<rparr>"

text \<open>
  A thread at the loop head makes its checks and, if it stays in the loop, starts a pass
  whose requests take \<open>d\<close> milliseconds and add \<open>n\<close> to its count, followed by the
  two-second sleep.
\<close>

definition begin_pass :: "nat \<Rightarrow> nat \<Rightarrow> nat \<Rightarrow> world \<Rightarrow> world" where
  "begin_pass tid d n w =
     (if \<not> is_alive w tid \<or> to_head (threads w ! tid) \<noteq> 0 then w
      else let t = threads w ! tid in
        if signalled w t \<or> budget_reached (th_max t) (th_count t) then
          w\<lparr>threads := (threads w)[tid := t\<lparr>alive := False\<rparr>]\<rparr>
        else
          w\<lparr>threads := (threads w)[tid := t\<lparr>to_head := d + 2000, th_count := th_count t + n\<rparr>]\<rparr>)"

text \<open>
  \<^verbatim>\<open>Thread.join(timeout)\<close>: the caller waits until the thread has ended or the timeout
  has run out, whichever comes first.
\<close>

definition join_timeout :: "nat \<Rightarrow> nat \<Rightarrow> world \<Rightarrow> world" where
  "join_timeout tid ms w =
     (if \<not> is_alive w tid then w
      else let t = threads w ! tid in
        if signalled w t \<and> to_head t \<le> ms then elapse (to_head t) w
        else elapse ms w)"

text \<open>
  Lines 130 to 133 of \<^verbatim>\<open>start_requests\<close>: the Event registered for the key is set, and
  the thread registered for it, if it is alive, is joined for at most three seconds.
\<close>

definition retire_old :: "string \<Rightarrow> world \<Rightarrow> world" where
  "retire_old scenario_type w =
     (case stop_events w scenario_type of
        None \<Rightarrow> w
      | Some ev \<Rightarrow>
          (let wa = set_event ev w in
           case request_threads wa scenario_type of
             None \<Rightarrow> wa
           | Some tid \<Rightarrow> if is_alive wa tid then join_timeout tid 3000 wa else wa))"

text \<open>
  \<^verbatim>\<open>start_requests\<close>: after that, the mode flag is stored, a new Event and a new
  thread are created and registered, and the thread is started. The new thread finds its
  Event in \<^verbatim>\<open>stop_events\<close> as soon as it runs, which is taken to be at once.
\<close>

definition start_requests :: "string \<Rightarrow> int option \<Rightarrow> bool \<Rightarrow> world \<Rightarrow> world" where
  "start_requests scenario_type max_requests is_recovery w =
     (let w1 = retire_old scenario_type w;
          w2 = w1\<lparr>recovery_mode := (recovery_mode w1)(scenario_type \<mapsto> is_recovery)\<rparr>;
          ev' = length (events w2);
          w3 = w2\<lparr>events := events w2 @ [False],
                 stop_events := (stop_events w2)(scenario_type \<mapsto> ev')\<rparr>;
          tid' = length (threads w3)
      in w3\<lparr>threads := threads w3 @
                [\<lparr>th_key = scenario_type, th_max = max_requests, th_event = Some ev',
                  th_count = 0, alive = True, to_head = 0\<rparr>],
            request_threads := (request_threads w3)(scenario_type \<mapsto> tid')\<rparr>)"

definition stop_requests :: "string \<Rightarrow> world \<Rightarrow> world" where
  "stop_requests scenario_type w =
     (case stop_events w scenario_type of
        None \<Rightarrow> w
      | Some ev \<Rightarrow> set_event ev w)"

definition live_runners :: "string \<Rightarrow> world \<Rightarrow> nat list" where
  "live_runners k w =
     [i \<leftarrow> [0..<length (threads w)]. alive (threads w ! i) \<and> th_key (threads w ! i) = k]"

text \<open>
  What happens between two calls of the registry without any further call of it: a
  runner thread gets on with its loop, or time goes by.
\<close>

datatype env_action = BeginPass nat nat nat | Elapse nat

fun env_step :: "env_action \<Rightarrow> world \<Rightarrow> world" where
  "env_step (BeginPass tid d n) w = begin_pass tid d n w"
| "env_step (Elapse ms) w = elapse ms w"

definition run_env :: "env_action list \<Rightarrow> world \<Rightarrow> world" where
  "run_env acts w = foldl (\<lambda>w a. env_step a w) w acts"

text \<open>
  \<^verbatim>\<open>send_continuous_requests\<close> as a thread body or called directly: the lookup of the
  Event (lines 85 to 87), then the loop. The world is returned as the function leaves it.
\<close>

definition send_continuous_requests :: "world \<Rightarrow> string \<Rightarrow> int option \<Rightarrow> cycle_env list
    \<Rightarrow> world \<times> runner" where
  "send_continuous_requests w scenario_type max_requests es =
     (case stop_events w scenario_type of
        None \<Rightarrow>
          (w, \<lparr>phase = Stopped, stop_flag = False, request_count = 0, clock = wall w,
               trace = [], loop_log = []\<rparr>)
      | Some ev \<Rightarrow>
          (w, run_loop SCENARIOS scenario_type max_requests es
                \<lparr>phase = Running, stop_flag = is_set w ev, request_count = 0, clock = wall w,
                 trace = [], loop_log = []\<rparr>))"

section \<open>Recovering every scenario\<close>

text \<open>
  One turn of the loop in \<^verbatim>\<open>recover_all\<close>: everything is inside the \<^verbatim>\<open>try\<close>, so the
  result for the key is always one of the three texts.
\<close>

definition recover_one :: "config \<Rightarrow> (http_call \<Rightarrow> http_result) \<Rightarrow> string \<Rightarrow> world
    \<Rightarrow> world \<times> string" where
  "recover_one config api scenario_type w =
     (let w' = stop_requests scenario_type w in
      (w', case subscript config ''error_injection_api'' of
             Inl ex \<Rightarrow> ''error: '' @ exc_str ex
           | Inr u \<Rightarrow>
               (case api \<lparr>verb = POST, url = u,
                          json_body = Some [(''action'', ''recover''),
                                            (''error_type'', scenario_type)],
                          timeout = 10\<rparr> of
                  Raises m \<Rightarrow> ''error: '' @ m
                | Response code \<Rightarrow> if code = 200 then ''recovered'' else ''failed'')))"

fun recover_keys :: "config \<Rightarrow> (http_call \<Rightarrow> http_result) \<Rightarrow> string list
    \<Rightarrow> world \<times> (string \<times> string) list \<Rightarrow> world \<times> (string \<times> string) list" where
  "recover_keys config api [] acc = acc"
| "recover_keys config api (k # ks) (w, results) =
     (let (w', r) = recover_one config api k w
      in recover_keys config api ks (w', results @ [(k, r)]))"

text \<open>
  \<^verbatim>\<open>recover_all\<close>: \<^verbatim>\<open>load_config()\<close> is called before the loop, outside every
  \<^verbatim>\<open>try\<close>, so its exception leaves the function.
\<close>

definition recover_all :: "world \<Rightarrow> config_file \<Rightarrow> (http_call \<Rightarrow> http_result)
    \<Rightarrow> py_exception + (world \<times> (string \<times> string) list)" where
  "recover_all w file api =
     (case load_config file of
        Inl ex \<Rightarrow> Inl ex
      | Inr config \<Rightarrow> Inr (recover_keys config api (map fst SCENARIOS) (w, [])))"

section \<open>Predicates used in the statements\<close>


text \<open>The three kinds of outcome \<^verbatim>\<open>recover_all\<close> reports for a key.\<close>

definition outcome_ok :: "string \<Rightarrow> bool" where
  "outcome_ok r = (r = ''recovered'' \<or> r = ''failed'' \<or> take 7 r = ''error: '')"

text \<open>
  The registry is in order for a key: the Event and the thread registered for it belong
  together, they are the newest ones, and no other thread of the key is alive.
\<close>

definition paired :: "string \<Rightarrow> nat \<Rightarrow> nat \<Rightarrow> world \<Rightarrow> bool" where
  "paired k tid ev w =
     (stop_events w k = Some ev \<and> request_threads w k = Some tid \<and>
      length (events w) = Suc ev \<and> length (threads w) = Suc tid \<and>
      th_event (threads w ! tid) = Some ev \<and> th_key (threads w ! tid) = k \<and>
      set (live_runners k w) \<subseteq> {tid})"

section \<open>Concrete inputs\<close>

text \<open>
  Inputs at which the theorems below are instantiated: two configurations that differ in
  their \<^verbatim>\<open>sample_api\<close>, a network on which every request times out, an injection API
  that answers 500 for \<^verbatim>\<open>latency\<close>, times out for \<^verbatim>\<open>wrong_ids\<close> and answers 200
  otherwise, and a table whose only definition has no \<^verbatim>\<open>request_type\<close>.
\<close>

definition example_config :: config where
  "example_config =
     [''error_injection_api'' \<mapsto> ''http://inject'', ''sample_api'' \<mapsto> ''http://api'']"

definition other_config :: config where
  "other_config =
     [''error_injection_api'' \<mapsto> ''http://inject'', ''sample_api'' \<mapsto> ''http://moved'']"

definition timing_out :: "http_call \<Rightarrow> http_result" where
  "timing_out c = Raises ''timed out''"

definition example_api :: "http_call \<Rightarrow> http_result" where
  "example_api c =
     (if json_body c = Some [(''action'', ''recover''), (''error_type'', ''latency'')]
      then Response 500
      else if json_body c = Some [(''action'', ''recover''), (''error_type'', ''wrong_ids'')]
      then Raises ''timed out''
      else Response 200)"


text \<open>
  Passes of the loop: one whose requests take 100 ms, the same with another
  configuration on disk, and the same with the Event set 600 ms after the loop-head
  check, that is half a second into the sleep.
\<close>

definition example_env :: cycle_env where
  "example_env =
     \<lparr>config_file = Parsed example_config, now = (\<lambda>i. ''1700000000.0''),
      net = (\<lambda>i. timing_out), work_ms = 100, cancel_at = None\<rparr>"

definition other_env :: cycle_env where
  "other_env = example_env\<lparr>config_file := Parsed other_config\<rparr>"

definition cancelled_env :: cycle_env where
  "cancelled_env = example_env\<lparr>cancel_at := Some 600\<rparr>"

text \<open>A pass that finds a \<^verbatim>\<open>config.json\<close> it cannot parse.\<close>

definition unreadable_env :: cycle_env where
  "unreadable_env =
     example_env\<lparr>config_file := Unreadable ''Expecting value: line 1 column 1 (char 0)''\<rparr>"

definition fresh_runner :: runner where
  "fresh_runner =
     \<lparr>phase = Running, stop_flag = False, request_count = 0, clock = 0,
      trace = [], loop_log = []\<rparr>"

text \<open>
  Registries: after a first start for \<^verbatim>\<open>latency\<close> and for \<^verbatim>\<open>lambda_throttle\<close>; and
  after the first start for \<^verbatim>\<open>latency\<close> once the runner is 200 ms into a pass whose
  request takes half a second, and once it has begun a pass whose request will run into
  its five-second timeout.
\<close>

definition registered_world :: world where
  "registered_world = start_requests ''latency'' None False initial_world"

definition throttle_world :: world where
  "throttle_world = start_requests ''lambda_throttle'' (Some 1) True initial_world"

definition quick_pass :: world where
  "quick_pass = run_env [BeginPass 0 500 1, Elapse 200] registered_world"

definition slow_pass :: world where
  "slow_pass = run_env [BeginPass 0 5000 1] registered_world"

section \<open>The sender\<close>

lemma send_returns: "fst (send_single_request config rt t n) = Inr ()"
  by (simp add: send_single_request_def split: prod.splits sum.splits)

lemma send_logs:
  "fst (try_send config rt t n) = Inl ex \<Longrightarrow>
   printed (snd (send_single_request config rt t n)) = [RequestFailed (exc_str ex)]"
  by (auto simp add: send_single_request_def split: prod.splits sum.splits)

lemma dispatch_counts:
  "snd (dispatch tbl k config e) = Inr (if k = ''lambda_throttle'' then 5 else 1)"
  by (simp add: dispatch_def Let_def send_single_request_def split: prod.splits sum.splits)

lemma body_counts:
  "load_config (config_file e) = Inr config \<Longrightarrow>
   request_count (loop_body tbl k e s) =
     request_count s + (if k = ''lambda_throttle'' then 5 else 1)"
  using dispatch_counts[of tbl k config e]
  by (auto simp add: loop_body_def attempt_def Let_def split: prod.splits sum.splits)

text \<open>
  C5. \<^verbatim>\<open>send_single_request\<close> returns normally for every configuration, request type,
  clock and network behaviour; whatever exception its \<^verbatim>\<open>try\<close> body meets (a transport
  failure of the outbound call, or a failed lookup before it) is printed as
  \<^verbatim>\<open>Request failed: ...\<close>; and a pass of the loop that has read its configuration
  raises \<^verbatim>\<open>request_count\<close> by the size of the pass (one, or five for the burst)
  whatever the network answers.
\<close>

theorem sender_never_raises:
  "fst (send_single_request config rt t n) = Inr ()
   \<and> (fst (try_send config rt t n) = Inl ex \<longrightarrow>
        printed (snd (send_single_request config rt t n)) = [RequestFailed (exc_str ex)])
   \<and> (load_config (config_file e) = Inr config \<longrightarrow>
        request_count (loop_body tbl k e s) =
          request_count s + (if k = ''lambda_throttle'' then 5 else 1))"
  using send_returns send_logs body_counts by blast

theorem sender_never_raises_witness:
  "fst (send_single_request example_config ''get_items'' ''0'' timing_out) = Inr ()
   \<and> fst (try_send example_config ''get_items'' ''0'' timing_out)
        = Inl (RequestException ''timed out'')
   \<and> printed (snd (send_single_request example_config ''get_items'' ''0'' timing_out))
        = [RequestFailed ''timed out'']
   \<and> load_config (config_file example_env) = Inr example_config
   \<and> request_count (loop_body SCENARIOS ''latency'' example_env fresh_runner) = 1"
  using sender_never_raises [of example_config "''get_items''" "''0''" timing_out
      "RequestException ''timed out''" example_env SCENARIOS "''latency''" fresh_runner]
  by (simp add: try_send_def request_for_def subscript_def example_config_def example_env_def
      fresh_runner_def timing_out_def)

text \<open>
  C6. For a target configuration, that is one with a \<^verbatim>\<open>sample_api\<close> entry \<open>base\<close>, the
  sender makes exactly one call, with a timeout of five seconds, whatever the network
  answers: \<^verbatim>\<open>get_items\<close> is a GET of \<open>base/items\<close>, \<^verbatim>\<open>get_by_id\<close> a GET of
  \<open>base/items/test-id-1\<close>, and \<^verbatim>\<open>post_items\<close> a POST to \<open>base/items\<close> whose body holds
  the label \<^verbatim>\<open>Error Trigger\<close> and the time of the request.
\<close>

theorem sender_shapes:
  assumes "config ''sample_api'' = Some base"
  shows "calls (snd (send_single_request config ''get_items'' t n)) =
           [\<lparr>verb = GET, url = base @ ''/items'', json_body = None, timeout = 5\<rparr>]
       \<and> calls (snd (send_single_request config ''get_by_id'' t n)) =
           [\<lparr>verb = GET, url = base @ ''/items/test-id-1'', json_body = None, timeout = 5\<rparr>]
       \<and> calls (snd (send_single_request config ''post_items'' t n)) =
           [\<lparr>verb = POST, url = base @ ''/items'',
             json_body = Some [(''name'', ''Error Trigger''), (''content'', ''Request at '' @ t)],
             timeout = 5\<rparr>]"
  using assms
  by (simp add: send_single_request_def try_send_def request_for_def subscript_def
      split: http_result.splits)

theorem sender_shapes_witness:
  "example_config ''sample_api'' = Some ''http://api''
   \<and> calls (snd (send_single_request example_config ''get_items'' ''17.5'' timing_out)) =
       [\<lparr>verb = GET, url = ''http://api/items'', json_body = None, timeout = 5\<rparr>]
   \<and> calls (snd (send_single_request example_config ''get_by_id'' ''17.5'' timing_out)) =
       [\<lparr>verb = GET, url = ''http://api/items/test-id-1'', json_body = None, timeout = 5\<rparr>]
   \<and> calls (snd (send_single_request example_config ''post_items'' ''17.5'' timing_out)) =
       [\<lparr>verb = POST, url = ''http://api/items'',
         json_body = Some [(''name'', ''Error Trigger''), (''content'', ''Request at 17.5'')],
         timeout = 5\<rparr>]"
proof -
  have h: "example_config ''sample_api'' = Some ''http://api''"
    by (simp add: example_config_def)
  show ?thesis
    using h sender_shapes [of example_config "''http://api''" "''17.5''" timing_out] by simp
qed

section \<open>The loop: what each pass leaves in the trace\<close>


lemma loop_body_trace: "trace (loop_body tbl k e s) = trace s @ [fst (attempt tbl k e)]"
  by (simp add: loop_body_def Let_def split: prod.splits sum.splits)

lemma loop_head_trace: "trace (loop_head k mx s) = trace s"
  by (simp add: loop_head_def)

lemma loop_head_count: "request_count (loop_head k mx s) = request_count s"
  by (simp add: loop_head_def)

lemma run_loop_trace:
  "\<exists>n \<le> length es. trace (run_loop tbl k mx es s) = trace s @ map (\<lambda>e. fst (attempt tbl k e)) (take n es)"
proof (induction es arbitrary: s)
  case Nil
  then show ?case by (simp add: loop_head_trace)
next
  case (Cons e es)
  show ?case
  proof (cases "phase (loop_head k mx s) = Stopped")
    case True
    then have "trace (run_loop tbl k mx (e # es) s) = trace s"
      by (simp add: loop_head_trace)
    then have "trace (run_loop tbl k mx (e # es) s) = trace s @ map (\<lambda>e. fst (attempt tbl k e)) (take 0 (e # es))"
      by simp
    then show ?thesis by blast
  next
    case False
    obtain n where n: "n \<le> length es"
      "trace (run_loop tbl k mx es (loop_body tbl k e (loop_head k mx s))) =
         trace (loop_body tbl k e (loop_head k mx s)) @ map (\<lambda>e. fst (attempt tbl k e)) (take n es)"
      using Cons.IH by blast
    have "trace (run_loop tbl k mx (e # es) s) =
        trace s @ map (\<lambda>e. fst (attempt tbl k e)) (take (Suc n) (e # es))"
      using False n(2) by (simp add: loop_body_trace loop_head_trace)
    moreover have "Suc n \<le> length (e # es)" using n(1) by simp
    ultimately show ?thesis by blast
  qed
qed

lemma run_loop_nth:
  assumes "trace s = []" "i < length (trace (run_loop tbl k mx es s))"
  shows "trace (run_loop tbl k mx es s) ! i = fst (attempt tbl k (es ! i)) \<and> i < length es"
proof -
  obtain n where n: "n \<le> length es"
    "trace (run_loop tbl k mx es s) = trace s @ map (\<lambda>e. fst (attempt tbl k e)) (take n es)"
    using run_loop_trace by blast
  have "i < n" using assms n by simp
  then show ?thesis using n assms by simp
qed

section \<open>The configuration is read in every pass\<close>

lemma unit_call:
  "config ''sample_api'' = Some base \<Longrightarrow>
   \<exists>c. calls (snd (send_single_request config rt t n)) = [c] \<and>
       (url c = base @ ''/items'' \<or> url c = base @ ''/items/test-id-1'')"
  by (simp add: send_single_request_def try_send_def request_for_def subscript_def
      split: http_result.splits)

lemma dispatch_units:
  "fst (dispatch tbl k config e) =
     map (\<lambda>i. snd (send_single_request config (request_type_of tbl k) (now e i) (net e i)))
       (if k = ''lambda_throttle'' then [0..<5] else [0])"
  by (simp add: dispatch_def Let_def split: prod.splits sum.splits)

lemma attempt_loaded:
  "load_config (config_file e) = Inr config \<Longrightarrow> attempt tbl k e = dispatch tbl k config e"
  by (simp add: attempt_def)

lemma attempt_urls:
  assumes "load_config (config_file e) = Inr config" "config ''sample_api'' = Some base"
  shows "fst (attempt tbl k e) \<noteq> [] \<and>
     (\<forall>u \<in> set (fst (attempt tbl k e)). \<exists>c. calls u = [c] \<and>
        (url c = base @ ''/items'' \<or> url c = base @ ''/items/test-id-1''))"
  using assms unit_call[of config base]
  by (auto simp add: attempt_loaded dispatch_units)

text \<open>
  C7. \<^verbatim>\<open>load_config()\<close> is called inside the loop, so the units of pass \<open>i\<close> are those
  computed from what \<^verbatim>\<open>config.json\<close> holds when pass \<open>i\<close> reads it, whatever earlier
  passes read: when that read gives a configuration with \<^verbatim>\<open>sample_api\<close> entry \<open>base\<close>,
  the pass sends requests, and each of them goes to \<open>base\<close>.
\<close>

theorem config_read_each_pass:
  assumes "i < length (trace (snd (send_continuous_requests w k mx es)))"
  shows "i < length es
    \<and> trace (snd (send_continuous_requests w k mx es)) ! i = fst (attempt SCENARIOS k (es ! i))
    \<and> (load_config (config_file (es ! i)) = Inr config \<and> config ''sample_api'' = Some base \<longrightarrow>
         trace (snd (send_continuous_requests w k mx es)) ! i \<noteq> [] \<and>
         (\<forall>u \<in> set (trace (snd (send_continuous_requests w k mx es)) ! i).
            \<exists>c. calls u = [c] \<and> (url c = base @ ''/items'' \<or> url c = base @ ''/items/test-id-1'')))"
proof (cases "stop_events w k")
  case None
  then show ?thesis using assms by (simp add: send_continuous_requests_def)
next
  case (Some ev)
  let ?s0 = "\<lparr>phase = Running, stop_flag = is_set w ev, request_count = 0, clock = wall w,
                 trace = [], loop_log = []\<rparr>"
  have r: "snd (send_continuous_requests w k mx es) = run_loop SCENARIOS k mx es ?s0"
    using Some by (simp add: send_continuous_requests_def)
  have "trace ?s0 = []" by simp
  then have n: "trace (run_loop SCENARIOS k mx es ?s0) ! i = fst (attempt SCENARIOS k (es ! i)) \<and> i < length es"
    using run_loop_nth[of ?s0 i SCENARIOS k mx es] assms r by simp
  then show ?thesis using r attempt_urls[of "es ! i" config base SCENARIOS k] by auto
qed


theorem config_read_each_pass_witness:
  "1 < length (trace (snd (send_continuous_requests registered_world ''latency'' None
                  [example_env, other_env])))
   \<and> load_config (config_file ([example_env, other_env] ! 1)) = Inr other_config
   \<and> other_config ''sample_api'' = Some ''http://moved''
   \<and> trace (snd (send_continuous_requests registered_world ''latency'' None
                  [example_env, other_env])) ! 1 =
       fst (attempt SCENARIOS ''latency'' ([example_env, other_env] ! 1))
   \<and> map (map calls) (trace (snd (send_continuous_requests registered_world ''latency'' None
                  [example_env, other_env]))) =
       [[[\<lparr>verb = GET, url = ''http://api/items'', json_body = None, timeout = 5\<rparr>]],
        [[\<lparr>verb = GET, url = ''http://moved/items'', json_body = None, timeout = 5\<rparr>]]]"
proof -
  have t: "snd (send_continuous_requests registered_world ''latency'' None [example_env, other_env])
      = \<lparr>phase = Running, stop_flag = False, request_count = 2, clock = 4200,
           trace =
             [[\<lparr>calls = [\<lparr>verb = GET, url = ''http://api/items'', json_body = None,
                           timeout = 5\<rparr>],
                printed = [RequestFailed ''timed out'']\<rparr>],
              [\<lparr>calls = [\<lparr>verb = GET, url = ''http://moved/items'', json_body = None,
                           timeout = 5\<rparr>],
                printed = [RequestFailed ''timed out'']\<rparr>]],
           loop_log = []\<rparr>"
    by code_simp
  have h: "1 < length (trace (snd (send_continuous_requests registered_world ''latency'' None
                  [example_env, other_env])))"
    by (simp add: t)
  have l: "load_config (config_file ([example_env, other_env] ! 1)) = Inr other_config"
    by (simp add: other_env_def)
  have b: "other_config ''sample_api'' = Some ''http://moved''"
    by (simp add: other_config_def)
  have v: "map (map calls) (trace (snd (send_continuous_requests registered_world ''latency'' None
                  [example_env, other_env]))) =
       [[[\<lparr>verb = GET, url = ''http://api/items'', json_body = None, timeout = 5\<rparr>]],
        [[\<lparr>verb = GET, url = ''http://moved/items'', json_body = None, timeout = 5\<rparr>]]]"
    by (simp add: t)
  from config_read_each_pass [OF h, of other_config "''http://moved''"]
  have c: "trace (snd (send_continuous_requests registered_world ''latency'' None
                  [example_env, other_env])) ! 1 =
       fst (attempt SCENARIOS ''latency'' ([example_env, other_env] ! 1))"
    by blast
  from h l b c v show ?thesis by blast
qed

section \<open>Called without a registered Event\<close>

text \<open>
  C10. When \<^verbatim>\<open>stop_events\<close> holds no Event for the scenario key,
  \<^verbatim>\<open>send_continuous_requests\<close> returns at line 87: the world (the three dictionaries,
  every Event and every thread) is as it was, no pass ran, nothing was sent, nothing was
  printed and no time went by.
\<close>

theorem no_event_returns_at_once:
  assumes "stop_events w k = None"
  shows "fst (send_continuous_requests w k mx es) = w
     \<and> snd (send_continuous_requests w k mx es) =
         \<lparr>phase = Stopped, stop_flag = False, request_count = 0, clock = wall w,
          trace = [], loop_log = []\<rparr>"
  using assms by (simp add: send_continuous_requests_def)

theorem no_event_returns_at_once_witness:
  "stop_events initial_world ''latency'' = None
   \<and> fst (send_continuous_requests initial_world ''latency'' (Some 30) [example_env]) = initial_world
   \<and> snd (send_continuous_requests initial_world ''latency'' (Some 30) [example_env]) =
         \<lparr>phase = Stopped, stop_flag = False, request_count = 0, clock = wall initial_world,
          trace = [], loop_log = []\<rparr>"
proof -
  have h: "stop_events initial_world ''latency'' = None"
    by (simp add: initial_world_def)
  from no_event_returns_at_once [of initial_world "''latency''" "Some 30" "[example_env]"] h
  show ?thesis by blast
qed

section \<open>The burst\<close>

lemma body_load_failed:
  "load_config (config_file e) = Inl ex \<Longrightarrow>
   request_count (loop_body tbl k e s) = request_count s
   \<and> trace (loop_body tbl k e s) = trace s @ [[]]
   \<and> loop_log (loop_body tbl k e s) = loop_log s @ [CycleFailed k (exc_str ex)]"
  by (simp add: loop_body_def attempt_def)

text \<open>
  C4, as the code has it. Whenever the block for \<^verbatim>\<open>lambda_throttle\<close> (lines 101 to 111)
  runs, it dispatches exactly five units, each a call of \<^verbatim>\<open>send_single_request\<close> with
  the configuration and request type of the pass, and adds exactly five to
  \<^verbatim>\<open>request_count\<close>, for every configuration and every behaviour of the network, so
  however many of the five fail. A pass of the loop reaches the block exactly when its
  \<^verbatim>\<open>load_config()\<close> returned: then the pass dispatches these five units and the count
  rises by five. A pass whose \<^verbatim>\<open>load_config()\<close> raised is caught by the \<^verbatim>\<open>except\<close> of
  the loop: it dispatches nothing, prints the failure and leaves the count as it was.
\<close>

theorem burst_dispatches_five:
  "fst (dispatch tbl ''lambda_throttle'' config e) =
     map (\<lambda>i. snd (send_single_request config (request_type_of tbl ''lambda_throttle'')
                     (now e i) (net e i))) [0..<5]
   \<and> length (fst (dispatch tbl ''lambda_throttle'' config e)) = 5
   \<and> snd (dispatch tbl ''lambda_throttle'' config e) = Inr 5
   \<and> (load_config (config_file e) = Inr config \<longrightarrow>
        request_count (loop_body tbl ''lambda_throttle'' e s) = request_count s + 5
        \<and> trace (loop_body tbl ''lambda_throttle'' e s) =
            trace s @ [fst (dispatch tbl ''lambda_throttle'' config e)])
   \<and> (load_config (config_file e) = Inl ex \<longrightarrow>
        request_count (loop_body tbl ''lambda_throttle'' e s) = request_count s
        \<and> trace (loop_body tbl ''lambda_throttle'' e s) = trace s @ [[]]
        \<and> loop_log (loop_body tbl ''lambda_throttle'' e s) =
            loop_log s @ [CycleFailed ''lambda_throttle'' (exc_str ex)])"
  using dispatch_units[of tbl "''lambda_throttle''" config e]
    dispatch_counts[of tbl "''lambda_throttle''" config e]
    body_counts[of e config tbl "''lambda_throttle''" s]
    loop_body_trace[of tbl "''lambda_throttle''" e s]
    attempt_loaded[of e config tbl "''lambda_throttle''"]
    body_load_failed[of e ex tbl "''lambda_throttle''" s]
  by simp

theorem burst_dispatches_five_witness:
  "load_config (config_file example_env) = Inr example_config
   \<and> length (fst (dispatch SCENARIOS ''lambda_throttle'' example_config example_env)) = 5
   \<and> map printed (fst (dispatch SCENARIOS ''lambda_throttle'' example_config example_env)) =
       replicate 5 [RequestFailed ''timed out'']
   \<and> request_count (loop_body SCENARIOS ''lambda_throttle'' example_env fresh_runner) =
       request_count fresh_runner + 5
   \<and> load_config (config_file unreadable_env) =
       Inl (ConfigError ''Expecting value: line 1 column 1 (char 0)'')
   \<and> request_count (loop_body SCENARIOS ''lambda_throttle'' unreadable_env fresh_runner) =
       request_count fresh_runner
   \<and> trace (loop_body SCENARIOS ''lambda_throttle'' unreadable_env fresh_runner) =
       trace fresh_runner @ [[]]"
proof -
  have h: "load_config (config_file example_env) = Inr example_config"
    by (simp add: example_env_def)
  have u: "load_config (config_file unreadable_env) =
       Inl (ConfigError ''Expecting value: line 1 column 1 (char 0)'')"
    by (simp add: unreadable_env_def)
  have p: "map printed (fst (dispatch SCENARIOS ''lambda_throttle'' example_config example_env)) =
       replicate 5 [RequestFailed ''timed out'']"
    by code_simp
  from burst_dispatches_five [of SCENARIOS example_config example_env fresh_runner] h
  have c1: "length (fst (dispatch SCENARIOS ''lambda_throttle'' example_config example_env)) = 5
    \<and> request_count (loop_body SCENARIOS ''lambda_throttle'' example_env fresh_runner) =
       request_count fresh_runner + 5"
    by blast
  from burst_dispatches_five [of SCENARIOS example_config unreadable_env fresh_runner
      "ConfigError ''Expecting value: line 1 column 1 (char 0)''"] u
  have c2: "request_count (loop_body SCENARIOS ''lambda_throttle'' unreadable_env fresh_runner) =
       request_count fresh_runner
    \<and> trace (loop_body SCENARIOS ''lambda_throttle'' unreadable_env fresh_runner) =
       trace fresh_runner @ [[]]"
    by blast
  from h u p c1 c2 show ?thesis by blast
qed

text \<open>
  C4 as the specification words it speaks of every cycle. A cycle of the
  \<^verbatim>\<open>lambda_throttle\<close> runner that finds a \<^verbatim>\<open>config.json\<close> it cannot parse (one that
  \<^verbatim>\<open>save_config\<close> has just truncated, say) leaves the \<^verbatim>\<open>try\<close> at line 97: no unit is
  dispatched, the count stays at 0, and the runner sleeps and goes on.
\<close>

theorem burst_skipped_without_config:
  "phase (snd (send_continuous_requests throttle_world ''lambda_throttle'' None
      [unreadable_env])) = Running
   \<and> request_count (snd (send_continuous_requests throttle_world ''lambda_throttle'' None
      [unreadable_env])) = 0
   \<and> trace (snd (send_continuous_requests throttle_world ''lambda_throttle'' None
      [unreadable_env])) = [[]]
   \<and> loop_log (snd (send_continuous_requests throttle_world ''lambda_throttle'' None
      [unreadable_env])) =
       [CycleFailed ''lambda_throttle'' ''Expecting value: line 1 column 1 (char 0)'']"
  by code_simp

section \<open>Scenario keys without a request type\<close>










section \<open>The request budget\<close>












section \<open>Cancellation during the sleep\<close>

text \<open>
  C3, as the code has it. A runner at the loop head, neither cancelled nor out of budget,
  makes its pass; another thread sets its Event \<open>t\<close> milliseconds after the head check,
  while the runner sleeps. The runner sleeps its two seconds to the end, finds the Event
  set at the next head check and leaves the loop: no later pass runs, so nothing is sent
  after the signal, and the loop is left at most two seconds after the signal.
\<close>

theorem cancel_during_sleep:
  assumes "phase s = Running" "\<not> stop_flag s" "\<not> budget_reached mx (request_count s)"
    and "cancel_at e = Some t" "work_ms e \<le> t" "t \<le> work_ms e + 2000"
  shows "phase (run_loop tbl k mx (e # es) s) = Stopped
     \<and> trace (run_loop tbl k mx (e # es) s) = trace s @ [fst (attempt tbl k e)]
     \<and> request_count (run_loop tbl k mx (e # es) s) = request_count (loop_body tbl k e s)
     \<and> clock (run_loop tbl k mx (e # es) s) = clock s + work_ms e + 2000
     \<and> clock s + t \<le> clock (run_loop tbl k mx (e # es) s)
     \<and> clock (run_loop tbl k mx (e # es) s) - (clock s + t) \<le> 2000"
proof -
  have h: "loop_head k mx s = s"
    using assms(1-3) by (simp add: loop_head_def)
  let ?s1 = "loop_body tbl k e s"
  have c: "cancelled_in e" using assms(4,6) by (simp add: cancelled_in_def)
  have s1: "phase ?s1 = Running" "stop_flag ?s1" "clock ?s1 = clock s + work_ms e + 2000"
    using assms(1) c by (simp_all add: loop_body_def Let_def split: prod.splits sum.splits)
  have hd: "loop_head k mx ?s1 = ?s1\<lparr>phase := Stopped\<rparr>"
    using s1 by (simp add: loop_head_def)
  have r: "run_loop tbl k mx (e # es) s = ?s1\<lparr>phase := Stopped\<rparr>"
    using h assms(1) hd by (cases es) simp_all
  show ?thesis
    using r s1(3) assms(5,6) by (simp add: loop_body_trace)
qed

theorem cancel_during_sleep_witness:
  "phase fresh_runner = Running \<and> \<not> stop_flag fresh_runner
   \<and> \<not> budget_reached None (request_count fresh_runner)
   \<and> cancel_at cancelled_env = Some 600 \<and> work_ms cancelled_env \<le> 600
   \<and> 600 \<le> work_ms cancelled_env + 2000
   \<and> phase (run_loop SCENARIOS ''latency'' None [cancelled_env, example_env] fresh_runner) = Stopped
   \<and> trace (run_loop SCENARIOS ''latency'' None [cancelled_env, example_env] fresh_runner) =
       trace fresh_runner @ [fst (attempt SCENARIOS ''latency'' cancelled_env)]
   \<and> clock (run_loop SCENARIOS ''latency'' None [cancelled_env, example_env] fresh_runner)
        - (clock fresh_runner + 600) \<le> 2000"
proof -
  have h: "phase fresh_runner = Running" "\<not> stop_flag fresh_runner"
    "\<not> budget_reached None (request_count fresh_runner)"
    by (simp_all add: fresh_runner_def budget_reached_def)
  have e: "cancel_at cancelled_env = Some 600" "work_ms cancelled_env \<le> 600"
    "600 \<le> work_ms cancelled_env + 2000"
    by (simp_all add: cancelled_env_def example_env_def)
  from cancel_during_sleep [OF h e, of SCENARIOS "''latency''" "[example_env]"]
  have c: "phase (run_loop SCENARIOS ''latency'' None [cancelled_env, example_env] fresh_runner) = Stopped
   \<and> trace (run_loop SCENARIOS ''latency'' None [cancelled_env, example_env] fresh_runner) =
       trace fresh_runner @ [fst (attempt SCENARIOS ''latency'' cancelled_env)]
   \<and> clock (run_loop SCENARIOS ''latency'' None [cancelled_env, example_env] fresh_runner)
        - (clock fresh_runner + 600) \<le> 2000"
    by blast
  from h e c show ?thesis by blast
qed

text \<open>
  C3 as the specification words it has the runner wake at once. The sleep is
  \<^verbatim>\<open>time.sleep(2)\<close>, not a wait on the Event: with the requests done after 100 ms and
  the Event set at 600 ms, the runner leaves its loop at 2100 ms, not at 600 ms.
\<close>

theorem sleep_not_interrupted:
  "cancel_at cancelled_env = Some 600 \<and> work_ms cancelled_env = 100
   \<and> clock fresh_runner = 0
   \<and> phase (run_loop SCENARIOS ''latency'' None [cancelled_env] fresh_runner) = Stopped
   \<and> clock (run_loop SCENARIOS ''latency'' None [cancelled_env] fresh_runner) = 2100"
  by code_simp

section \<open>Recovering every scenario: the outcomes\<close>

lemma recover_one_outcome: "outcome_ok (snd (recover_one config api k w))"
  by (simp add: recover_one_def outcome_ok_def Let_def split: sum.splits http_result.splits)

lemma recover_keys_keys:
  "map fst (snd (recover_keys config api ks (w, acc))) = map fst acc @ ks"
  by (induction ks arbitrary: w acc) (simp_all add: Let_def split: prod.splits)

lemma recover_keys_outcomes:
  "\<forall>r \<in> set (map snd acc). outcome_ok r \<Longrightarrow>
   \<forall>r \<in> set (map snd (snd (recover_keys config api ks (w, acc)))). outcome_ok r"
proof (induction ks arbitrary: w acc)
  case Nil
  then show ?case by simp
next
  case (Cons k ks)
  obtain w' r where wr: "recover_one config api k w = (w', r)" by (cases "recover_one config api k w")
  then have "outcome_ok r" using recover_one_outcome[of config api k w] by simp
  then have "\<forall>x \<in> set (map snd (acc @ [(k, r)])). outcome_ok x" using Cons.prems by auto
  from Cons.IH[OF this] show ?case using wr by simp
qed

lemma stop_requests_tables:
  "request_threads (stop_requests k w) = request_threads w
   \<and> stop_events (stop_requests k w) = stop_events w
   \<and> recovery_mode (stop_requests k w) = recovery_mode w
   \<and> threads (stop_requests k w) = threads w
   \<and> wall (stop_requests k w) = wall w
   \<and> length (events (stop_requests k w)) = length (events w)
   \<and> (stop_events w k = None \<longrightarrow> stop_requests k w = w)"
  by (simp add: stop_requests_def set_event_def split: option.splits)

lemma recover_keys_tables:
  "request_threads (fst (recover_keys config api ks (w, acc))) = request_threads w
   \<and> stop_events (fst (recover_keys config api ks (w, acc))) = stop_events w
   \<and> recovery_mode (fst (recover_keys config api ks (w, acc))) = recovery_mode w
   \<and> threads (fst (recover_keys config api ks (w, acc))) = threads w
   \<and> (stop_events w = Map.empty \<longrightarrow> fst (recover_keys config api ks (w, acc)) = w)"
proof (induction ks arbitrary: w acc)
  case Nil
  then show ?case by simp
next
  case (Cons k ks)
  have f: "fst (recover_one config api k w) = stop_requests k w"
    by (simp add: recover_one_def Let_def)
  show ?case
    using Cons.IH[of "stop_requests k w" "acc @ [(k, snd (recover_one config api k w))]"]
      stop_requests_tables[of k w] f
    by (auto simp add: Let_def split: prod.splits)
qed

text \<open>
  When \<^verbatim>\<open>config.json\<close> is there to be read, \<^verbatim>\<open>recover_all\<close> returns: its results name
  the keys of \<open>SCENARIOS\<close> in order, each with one of the three outcomes, the
  dictionaries and threads of the registry are as before, and a registry without Events
  is left exactly as it was.
\<close>

lemma recover_all_when_config_loads:
  assumes "load_config file = Inr config"
  shows "recover_all w file api = Inr (recover_keys config api (map fst SCENARIOS) (w, []))
     \<and> map fst (snd (recover_keys config api (map fst SCENARIOS) (w, []))) = map fst SCENARIOS
     \<and> (\<forall>r \<in> set (map snd (snd (recover_keys config api (map fst SCENARIOS) (w, [])))).
           outcome_ok r)
     \<and> (stop_events w = Map.empty \<longrightarrow>
           fst (recover_keys config api (map fst SCENARIOS) (w, [])) = w)"
  using assms recover_keys_keys[of config api "map fst SCENARIOS" w "[]"]
    recover_keys_outcomes[of "[]" config api "map fst SCENARIOS" w]
    recover_keys_tables[of config api "map fst SCENARIOS" w "[]"]
  by (simp add: recover_all_def)

text \<open>
  C8. \<^verbatim>\<open>recover_all\<close> calls \<^verbatim>\<open>load_config()\<close> at line 300, before the loop and outside
  its \<^verbatim>\<open>try\<close>. With a \<^verbatim>\<open>config.json\<close> that cannot be parsed (for instance one that
  \<^verbatim>\<open>save_config\<close> has just truncated) the exception leaves \<^verbatim>\<open>recover_all\<close> and no
  mapping is returned, on the empty registry as on any other. The routes beside it,
  \<^verbatim>\<open>recover_error\<close>, \<^verbatim>\<open>inject_error\<close> and \<^verbatim>\<open>get_status\<close>, call \<^verbatim>\<open>load_config()\<close>
  inside their \<^verbatim>\<open>try\<close>.
\<close>

theorem recover_all_config_unreadable:
  "recover_all initial_world (Unreadable ''Expecting value: line 1 column 1 (char 0)'') example_api
     = Inl (ConfigError ''Expecting value: line 1 column 1 (char 0)'')"
  by (simp add: recover_all_def)

section \<open>Starting a runner twice\<close>

lemma in_live_runners:
  "i \<in> set (live_runners k w) \<longleftrightarrow>
     i < length (threads w) \<and> alive (threads w ! i) \<and> th_key (threads w ! i) = k"
  by (auto simp add: live_runners_def)

lemma elapse_thread_fields:
  "th_key (elapse_thread w ms t) = th_key t \<and> th_event (elapse_thread w ms t) = th_event t
   \<and> (alive (elapse_thread w ms t) \<longrightarrow> alive t)"
  by (simp add: elapse_thread_def)

lemma elapse_fields:
  "request_threads (elapse ms w) = request_threads w \<and> stop_events (elapse ms w) = stop_events w
   \<and> recovery_mode (elapse ms w) = recovery_mode w \<and> events (elapse ms w) = events w
   \<and> length (threads (elapse ms w)) = length (threads w) \<and> wall (elapse ms w) = wall w + ms"
  by (simp add: elapse_def)

lemma elapse_nth:
  "i < length (threads w) \<Longrightarrow> threads (elapse ms w) ! i = elapse_thread w ms (threads w ! i)"
  by (simp add: elapse_def)

lemma begin_pass_fields:
  "request_threads (begin_pass tid d n w) = request_threads w
   \<and> stop_events (begin_pass tid d n w) = stop_events w
   \<and> recovery_mode (begin_pass tid d n w) = recovery_mode w
   \<and> events (begin_pass tid d n w) = events w
   \<and> length (threads (begin_pass tid d n w)) = length (threads w)
   \<and> wall (begin_pass tid d n w) = wall w"
  by (simp add: begin_pass_def Let_def)

lemma begin_pass_nth:
  "i < length (threads w) \<Longrightarrow>
   th_key (threads (begin_pass tid d n w) ! i) = th_key (threads w ! i)
   \<and> th_event (threads (begin_pass tid d n w) ! i) = th_event (threads w ! i)
   \<and> (alive (threads (begin_pass tid d n w) ! i) \<longrightarrow> alive (threads w ! i))"
  by (cases "i = tid") (simp_all add: begin_pass_def Let_def is_alive_def)

lemma env_step_fields:
  "request_threads (env_step a w) = request_threads w
   \<and> stop_events (env_step a w) = stop_events w
   \<and> events (env_step a w) = events w
   \<and> length (threads (env_step a w)) = length (threads w)"
  using elapse_fields begin_pass_fields by (cases a) simp_all

lemma env_step_nth:
  "i < length (threads w) \<Longrightarrow>
   th_key (threads (env_step a w) ! i) = th_key (threads w ! i)
   \<and> th_event (threads (env_step a w) ! i) = th_event (threads w ! i)
   \<and> (alive (threads (env_step a w) ! i) \<longrightarrow> alive (threads w ! i))"
  using begin_pass_nth elapse_nth elapse_thread_fields by (cases a) simp_all

lemma env_step_live: "set (live_runners k (env_step a w)) \<subseteq> set (live_runners k w)"
  using env_step_nth[of _ w a] env_step_fields[of a w]
  by (auto simp add: in_live_runners)

lemma env_step_paired: "paired k tid ev w \<Longrightarrow> paired k tid ev (env_step a w)"
  using env_step_fields[of a w] env_step_nth[of tid w a] env_step_live[of k a w]
  by (auto simp add: paired_def)

lemma run_env_paired: "paired k tid ev w \<Longrightarrow> paired k tid ev (run_env acts w)"
  unfolding run_env_def
  by (induction acts arbitrary: w) (simp_all add: env_step_paired)

lemma set_event_fields:
  "request_threads (set_event ev w) = request_threads w \<and> stop_events (set_event ev w) = stop_events w
   \<and> threads (set_event ev w) = threads w \<and> wall (set_event ev w) = wall w
   \<and> events (set_event ev w) = (events w)[ev := True]"
  by (simp add: set_event_def)

lemma join_timeout_cases:
  "join_timeout tid ms w = w \<or> (\<exists>d \<le> ms. join_timeout tid ms w = elapse d w)"
  by (auto simp add: join_timeout_def Let_def)

lemma retire_old_shape:
  "retire_old k w = w
   \<or> (\<exists>ev. stop_events w k = Some ev \<and>
        (retire_old k w = set_event ev w
         \<or> (\<exists>d \<le> 3000. retire_old k w = elapse d (set_event ev w))))"
proof (cases "stop_events w k")
  case None
  then show ?thesis by (simp add: retire_old_def)
next
  case (Some ev)
  show ?thesis
  proof (cases "request_threads w k")
    case None
    then show ?thesis using Some by (simp add: retire_old_def Let_def set_event_fields)
  next
    case (Some tid)
    then show ?thesis
      using \<open>stop_events w k = Some ev\<close> join_timeout_cases[of tid 3000 "set_event ev w"]
      by (auto simp add: retire_old_def Let_def set_event_fields)
  qed
qed

lemma retire_old_fields:
  "request_threads (retire_old k w) = request_threads w
   \<and> stop_events (retire_old k w) = stop_events w
   \<and> length (events (retire_old k w)) = length (events w)
   \<and> length (threads (retire_old k w)) = length (threads w)
   \<and> wall (retire_old k w) \<le> wall w + 3000"
  using retire_old_shape[of k w]
  by (auto simp add: set_event_fields elapse_fields)

lemma retire_old_nth:
  assumes "i < length (threads w)"
  shows "th_key (threads (retire_old k w) ! i) = th_key (threads w ! i)
     \<and> th_event (threads (retire_old k w) ! i) = th_event (threads w ! i)
     \<and> (alive (threads (retire_old k w) ! i) \<longrightarrow> alive (threads w ! i))"
  using retire_old_shape[of k w] assms elapse_thread_fields
  by (auto simp add: set_event_fields elapse_nth)

lemma retire_old_live: "set (live_runners k' (retire_old k w)) \<subseteq> set (live_runners k' w)"
  using retire_old_nth[of _ w k] retire_old_fields[of k w]
  by (auto simp add: in_live_runners)

lemma retire_old_paired:
  assumes "paired k tid ev w"
  shows "events (retire_old k w) = (events w)[ev := True]
     \<and> (alive (threads (retire_old k w) ! tid) \<longleftrightarrow>
          alive (threads w ! tid) \<and> 3000 < to_head (threads w ! tid))"
proof -
  let ?wa = "set_event ev w"
  have p: "stop_events w k = Some ev" "request_threads w k = Some tid" "ev < length (events w)"
    "length (threads w) = Suc tid" "th_event (threads w ! tid) = Some ev"
    using assms by (simp_all add: paired_def)
  have sig: "signalled ?wa (threads w ! tid)"
    using p by (simp add: signalled_def is_set_def set_event_def)
  show ?thesis
  proof (cases "alive (threads w ! tid)")
    case False
    then show ?thesis
      using p by (simp add: retire_old_def Let_def set_event_fields is_alive_def)
  next
    case True
    then have r: "retire_old k w = join_timeout tid 3000 ?wa"
      using p by (simp add: retire_old_def Let_def set_event_fields is_alive_def)
    have a: "is_alive ?wa tid" using True p by (simp add: is_alive_def set_event_fields)
    show ?thesis
    proof (cases "to_head (threads w ! tid) \<le> 3000")
      case le: True
      then have "join_timeout tid 3000 ?wa = elapse (to_head (threads w ! tid)) ?wa"
        using a sig by (simp add: join_timeout_def Let_def set_event_fields)
      then show ?thesis
        using r le True sig p
        by (simp add: elapse_fields elapse_nth set_event_fields elapse_thread_def)
    next
      case gt: False
      then have "join_timeout tid 3000 ?wa = elapse 3000 ?wa"
        using a by (simp add: join_timeout_def Let_def set_event_fields)
      then show ?thesis
        using r gt True p
        by (simp add: elapse_fields elapse_nth set_event_fields elapse_thread_def)
    qed
  qed
qed

lemma filter_upt_Suc:
  "filter P [0..<Suc n] = filter P [0..<n] @ (if P n then [n] else [])"
  by simp

lemma live_runners_last:
  assumes "length (threads w) = Suc tid" "set (live_runners k w) \<subseteq> {tid}"
  shows "live_runners k w =
     (if alive (threads w ! tid) \<and> th_key (threads w ! tid) = k then [tid] else [])"
proof -
  have "\<not> (alive (threads w ! i) \<and> th_key (threads w ! i) = k)" if "i < tid" for i
  proof
    assume "alive (threads w ! i) \<and> th_key (threads w ! i) = k"
    then have "i \<in> set (live_runners k w)"
      using that assms(1) by (simp add: in_live_runners)
    then show False using assms(2) that by auto
  qed
  then have "filter (\<lambda>i. alive (threads w ! i) \<and> th_key (threads w ! i) = k) [0..<tid] = []"
    by (simp add: filter_empty_conv)
  then show ?thesis
    using assms(1) by (simp add: live_runners_def)
qed

lemma live_runners_snoc:
  assumes "threads w' = threads w @ [t]"
  shows "live_runners k w' =
     live_runners k w @ (if alive t \<and> th_key t = k then [length (threads w)] else [])"
proof -
  let ?P = "\<lambda>ts i. alive (ts ! i) \<and> th_key (ts ! i) = k"
  have "filter (?P (threads w @ [t])) [0..<length (threads w)] =
        filter (?P (threads w)) [0..<length (threads w)]"
    by (rule filter_cong) (simp_all add: nth_append)
  then show ?thesis
    using assms by (simp add: live_runners_def nth_append)
qed

lemma start_requests_fields:
  "stop_events (start_requests k mx r w) k = Some (length (events w))
   \<and> request_threads (start_requests k mx r w) k = Some (length (threads w))
   \<and> events (start_requests k mx r w) = events (retire_old k w) @ [False]
   \<and> threads (start_requests k mx r w) = threads (retire_old k w) @
        [\<lparr>th_key = k, th_max = mx, th_event = Some (length (events w)),
          th_count = 0, alive = True, to_head = 0\<rparr>]
   \<and> recovery_mode (start_requests k mx r w) k = Some r
   \<and> wall (start_requests k mx r w) = wall (retire_old k w)"
  using retire_old_fields[of k w] by (simp add: start_requests_def Let_def)

lemma start_requests_live:
  "live_runners k (start_requests k mx r w) =
     live_runners k (retire_old k w) @ [length (threads w)]"
  using live_runners_snoc[of "start_requests k mx r w" "retire_old k w" _ k]
    start_requests_fields[of k mx r w] retire_old_fields[of k w]
  by simp

lemma first_start_paired:
  assumes "live_runners k w = []"
  shows "paired k (length (threads w)) (length (events w)) (start_requests k mx r w)
     \<and> live_runners k (start_requests k mx r w) = [length (threads w)]"
proof -
  have e: "live_runners k (retire_old k w) = []"
    using retire_old_live[of k k w] assms by simp
  then have l: "live_runners k (start_requests k mx r w) = [length (threads w)]"
    by (simp add: start_requests_live)
  show ?thesis
    using l start_requests_fields[of k mx r w] retire_old_fields[of k w]
    by (simp add: paired_def nth_append)
qed

lemma second_start_live:
  assumes "paired k tid ev w"
  shows "live_runners k (start_requests k mx r w) =
     (if alive (threads w ! tid) \<and> 3000 < to_head (threads w ! tid)
      then [tid, Suc tid] else [Suc tid])"
proof -
  have p: "length (threads w) = Suc tid" "th_key (threads w ! tid) = k"
    "set (live_runners k w) \<subseteq> {tid}"
    using assms by (simp_all add: paired_def)
  have len: "length (threads (retire_old k w)) = Suc tid"
    using retire_old_fields[of k w] p(1) by simp
  have sub: "set (live_runners k (retire_old k w)) \<subseteq> {tid}"
    using retire_old_live[of k k w] p(3) by blast
  have key: "th_key (threads (retire_old k w) ! tid) = k"
    using retire_old_nth[of tid w k] p by simp
  have "live_runners k (retire_old k w) =
      (if alive (threads w ! tid) \<and> 3000 < to_head (threads w ! tid) then [tid] else [])"
    using live_runners_last[OF len sub] key retire_old_paired[OF assms] by simp
  then show ?thesis
    using p(1) by (simp add: start_requests_live)
qed

lemma overlap_ends:
  assumes "paired k tid ev w"
  shows "live_runners k (elapse (to_head (threads (start_requests k mx r w) ! tid))
            (start_requests k mx r w)) = [Suc tid]"
proof -
  let ?w3 = "start_requests k mx r w"
  let ?d = "to_head (threads ?w3 ! tid)"
  let ?new = "\<lparr>th_key = k, th_max = mx, th_event = Some (Suc ev),
          th_count = 0, alive = True, to_head = 0\<rparr>"
  have p: "length (threads w) = Suc tid" "length (events w) = Suc ev"
    "th_event (threads w ! tid) = Some ev"
    using assms by (simp_all add: paired_def)
  have f: "threads ?w3 = threads (retire_old k w) @ [?new]"
    "events ?w3 = events (retire_old k w) @ [False]"
    using start_requests_fields[of k mx r w] p by simp_all
  have len: "length (threads (retire_old k w)) = Suc tid"
    using retire_old_fields[of k w] p by simp
  have ev: "events (retire_old k w) = (events w)[ev := True]"
    using retire_old_paired[OF assms] by simp
  have old: "threads ?w3 ! tid = threads (retire_old k w) ! tid"
    using f len by (simp add: nth_append)
  have new: "threads ?w3 ! Suc tid = ?new"
    using f len by (simp add: nth_append)
  have old_ev: "th_event (threads ?w3 ! tid) = Some ev"
    using old retire_old_nth[of tid w k] p by simp
  have set_ev: "is_set ?w3 ev" "\<not> is_set ?w3 (Suc ev)"
    using f ev p by (simp_all add: is_set_def nth_append)
  have old_dead: "\<not> alive (threads (elapse ?d ?w3) ! tid)"
    using old_ev set_ev f len
    by (simp add: elapse_nth elapse_thread_def signalled_def)
  have new_alive: "alive (threads (elapse ?d ?w3) ! Suc tid)
      \<and> th_key (threads (elapse ?d ?w3) ! Suc tid) = k"
    using new set_ev f len
    by (simp add: elapse_nth elapse_thread_def signalled_def)
  have l3: "set (live_runners k ?w3) \<subseteq> {tid, Suc tid}"
    using second_start_live[OF assms, of mx r] by (simp split: if_splits)
  have "set (live_runners k (elapse ?d ?w3)) \<subseteq> set (live_runners k ?w3)"
    using env_step_live[of k "Elapse ?d" ?w3] by simp
  then have sub: "set (live_runners k (elapse ?d ?w3)) \<subseteq> {Suc tid}"
    using l3 old_dead by (auto simp add: in_live_runners)
  have len3: "length (threads (elapse ?d ?w3)) = Suc (Suc tid)"
    using f len by (simp add: elapse_fields)
  show ?thesis
    using live_runners_last[OF len3 sub] new_alive by simp
qed

text \<open>
  C2, as the code has it. Let \<^verbatim>\<open>start_requests\<close> be called for a key that has no live
  runner, and again for the same key after the first runner has got on with its loop
  for a while. The second call sets the first runner's Event, waits at most three
  seconds for its thread, and then registers and starts a new thread with a fresh, unset
  Event. If the first runner reaches its loop head within the three seconds (it has
  ended already, it is asleep, or its requests have at most a second left before the
  two-second sleep) the new runner is the only live one. Otherwise the call goes on
  regardless and both are alive, until the first one reaches its loop head, finds its
  Event set and ends.
\<close>

theorem second_start_best_effort:
  assumes "live_runners k w0 = []"
    and "tid = length (threads w0)" and "ev = length (events w0)"
    and "w2 = run_env acts (start_requests k m1 r1 w0)"
    and "w3 = start_requests k m2 r2 w2"
  shows "live_runners k w3 =
           (if alive (threads w2 ! tid) \<and> 3000 < to_head (threads w2 ! tid)
            then [tid, Suc tid] else [Suc tid])
     \<and> is_set w3 ev
     \<and> wall w3 \<le> wall w2 + 3000
     \<and> stop_events w3 k = Some (Suc ev) \<and> \<not> is_set w3 (Suc ev)
     \<and> request_threads w3 k = Some (Suc tid)
     \<and> recovery_mode w3 k = Some r2
     \<and> live_runners k (elapse (to_head (threads w3 ! tid)) w3) = [Suc tid]"
proof -
  have p1: "paired k tid ev (start_requests k m1 r1 w0)"
    using first_start_paired[OF assms(1), of m1 r1] assms(2,3) by simp
  have p2: "paired k tid ev w2"
    using run_env_paired[OF p1] assms(4) by simp
  have p: "length (threads w2) = Suc tid" "length (events w2) = Suc ev"
    using p2 by (simp_all add: paired_def)
  have f: "events w3 = events (retire_old k w2) @ [False]"
    using start_requests_fields[of k m2 r2 w2] assms(5) by simp
  have ev: "events (retire_old k w2) = (events w2)[ev := True]"
    using retire_old_paired[OF p2] by simp
  have s: "is_set w3 ev" "\<not> is_set w3 (Suc ev)"
    using f ev p by (simp_all add: is_set_def nth_append)
  have w: "wall w3 \<le> wall w2 + 3000"
    using start_requests_fields[of k m2 r2 w2] retire_old_fields[of k w2] assms(5) by simp
  have t: "stop_events w3 k = Some (Suc ev)" "request_threads w3 k = Some (Suc tid)"
    "recovery_mode w3 k = Some r2"
    using start_requests_fields[of k m2 r2 w2] assms(5) p by simp_all
  show ?thesis
    using second_start_live[OF p2, of m2 r2] overlap_ends[OF p2, of m2 r2] s w t assms(5)
    by simp
qed

lemma registered_world_value:
  "registered_world =
     \<lparr>request_threads = [''latency'' \<mapsto> 0], stop_events = [''latency'' \<mapsto> 0],
      recovery_mode = [''latency'' \<mapsto> False], events = [False],
      threads = [\<lparr>th_key = ''latency'', th_max = None, th_event = Some 0, th_count = 0,
                  alive = True, to_head = 0\<rparr>],
      wall = 0\<rparr>"
  by (simp add: registered_world_def start_requests_def retire_old_def initial_world_def Let_def)

lemma slow_pass_value:
  "slow_pass =
     \<lparr>request_threads = [''latency'' \<mapsto> 0], stop_events = [''latency'' \<mapsto> 0],
      recovery_mode = [''latency'' \<mapsto> False], events = [False],
      threads = [\<lparr>th_key = ''latency'', th_max = None, th_event = Some 0, th_count = 1,
                  alive = True, to_head = 7000\<rparr>],
      wall = 0\<rparr>"
  by (simp add: slow_pass_def run_env_def registered_world_value begin_pass_def is_alive_def
      signalled_def is_set_def budget_reached_def Let_def)

theorem second_start_best_effort_witness:
  "live_runners ''latency'' initial_world = []
   \<and> quick_pass = run_env [BeginPass 0 500 1, Elapse 200]
        (start_requests ''latency'' None False initial_world)
   \<and> to_head (threads quick_pass ! 0) = 2300
   \<and> live_runners ''latency'' (start_requests ''latency'' (Some 30) True quick_pass) = [1]
   \<and> is_set (start_requests ''latency'' (Some 30) True quick_pass) 0
   \<and> wall (start_requests ''latency'' (Some 30) True quick_pass) \<le> wall quick_pass + 3000"
proof -
  have h: "live_runners ''latency'' initial_world = []"
    by (simp add: live_runners_def initial_world_def)
  have t: "0 = length (threads initial_world)" "0 = length (events initial_world)"
    by (simp_all add: initial_world_def)
  have q: "quick_pass = run_env [BeginPass 0 500 1, Elapse 200]
        (start_requests ''latency'' None False initial_world)"
    by (simp add: quick_pass_def registered_world_def)
  have d: "to_head (threads quick_pass ! 0) = 2300"
    by (simp add: quick_pass_def run_env_def registered_world_value begin_pass_def is_alive_def
        signalled_def is_set_def budget_reached_def elapse_def elapse_thread_def Let_def)
  from second_start_best_effort [OF h t q refl, of "Some 30" True] d
  have c: "live_runners ''latency'' (start_requests ''latency'' (Some 30) True quick_pass) = [1]
   \<and> is_set (start_requests ''latency'' (Some 30) True quick_pass) 0
   \<and> wall (start_requests ''latency'' (Some 30) True quick_pass) \<le> wall quick_pass + 3000"
    by simp
  from h q d c show ?thesis by blast
qed

text \<open>
  C2 as the specification words it promises one live runner, never two. The first
  runner has begun a pass whose request takes five seconds; the second start sets its
  Event, waits its three seconds, and starts the new thread while the first one still has
  four seconds to go before its next loop-head check: two runners of the key are alive.
\<close>

theorem two_live_runners:
  "slow_pass = run_env [BeginPass 0 5000 1] (start_requests ''latency'' None False initial_world)
   \<and> live_runners ''latency'' slow_pass = [0]
   \<and> live_runners ''latency'' (start_requests ''latency'' None False slow_pass) = [0, 1]
   \<and> wall (start_requests ''latency'' None False slow_pass) = 3000
   \<and> to_head (threads (start_requests ''latency'' None False slow_pass) ! 0) = 4000"
proof -
  have q: "slow_pass = run_env [BeginPass 0 5000 1]
        (start_requests ''latency'' None False initial_world)"
    by (simp add: slow_pass_def registered_world_def)
  have v: "live_runners ''latency'' slow_pass = [0]
   \<and> live_runners ''latency'' (start_requests ''latency'' None False slow_pass) = [0, 1]
   \<and> wall (start_requests ''latency'' None False slow_pass) = 3000
   \<and> to_head (threads (start_requests ''latency'' None False slow_pass) ! 0) = 4000"
    by (simp add: slow_pass_value live_runners_def start_requests_def retire_old_def
        set_event_def is_alive_def join_timeout_def signalled_def is_set_def elapse_def
        elapse_thread_def Let_def)
  from q v show ?thesis by blast
qed

end
